theory Spec2Isabelle
  imports Main
begin

section \<open>The batch loader of createBatchLoader.ts\<close>

text \<open>
  The engine is a closure over mutable variables (the queue, the timer handle, the
  subscription registry and the item states). It is modelled as a record that every
  operation takes and returns. Three things the engine only talks to are part of the
  record as well, so that claims about them can be stated:
  \<^item> the pending timers of \<^verbatim>\<open>setTimeout\<close> (\<open>timers\<close>, \<open>nextTimer\<close>);
  \<^item> the invocations of the bulk loader (\<open>calls\<close>) and the flushes that await the
    loader's result (\<open>inflight\<close>);
  \<^item> the invocations of observer callbacks (\<open>notified\<close>).

  Modelling decisions:
  \<^item> Callbacks and loaders are JavaScript functions compared by reference; each is a
    natural number naming the function. A callback only observes: it does not call
    back into the engine and does not throw.
  \<^item> The objects \<^verbatim>\<open>subscriptions\<close> and \<^verbatim>\<open>itemStates\<close> are used as dictionaries
    and are maps over their own properties (identifiers naming members of
    \<^verbatim>\<open>Object.prototype\<close> are not modelled).
  \<^item> Loaded items are objects, hence truthy: \<^verbatim>\<open>!item\<close> holds exactly when
    \<^verbatim>\<open>find\<close> found nothing.
  \<^item> \<^verbatim>\<open>if (id)\<close> is JavaScript truthiness: it fails for \<^verbatim>\<open>null\<close> and for the
    empty string.
  \<^item> An exception leaves the writes made before it in place, so a call returns the
    exception (if any) together with the state.
\<close>

subsection \<open>Data\<close>

type_synonym callback = nat

text \<open>The \<^verbatim>\<open>data\<close> property of an item state: missing, \<^verbatim>\<open>null\<close> or an item.\<close>

datatype 'a field = Undefined | Null | Item 'a

text \<open>
  \<^verbatim>\<open>interface ItemState<T>\<close>. A flag is \<open>None\<close> when the object has no such property,
  which is what \<^verbatim>\<open>{...undefined, isQueued: true}\<close> produces.
\<close>

record 'a ItemState =
  isLoading :: "bool option"
  isQueued :: "bool option"
  hasErrors :: "bool option"
  data :: "'a field"

definition NEW_ITEM_STATE :: "'a ItemState" where
  "NEW_ITEM_STATE =
     \<lparr>isLoading = Some False, isQueued = Some True, hasErrors = Some False, data = Null\<rparr>"

record Options =
  debounce :: int
  loadWithoutItems :: bool
  keepCache :: bool

definition DEFAULT_OPTIONS :: Options where
  "DEFAULT_OPTIONS = \<lparr>debounce = 0, loadWithoutItems = False, keepCache = False\<rparr>"

text \<open>\<^verbatim>\<open>Partial<Options>\<close>: every property may be missing.\<close>

record PartialOptions =
  debounce_opt :: "int option"
  loadWithoutItems_opt :: "bool option"
  keepCache_opt :: "bool option"

text \<open>\<^verbatim>\<open>{...DEFAULT_OPTIONS, ...options}\<close>\<close>

definition withDefaults :: "PartialOptions \<Rightarrow> Options" where
  "withDefaults options =
     \<lparr>debounce = (case debounce_opt options of None \<Rightarrow> debounce DEFAULT_OPTIONS | Some d \<Rightarrow> d),
      loadWithoutItems =
        (case loadWithoutItems_opt options of
           None \<Rightarrow> loadWithoutItems DEFAULT_OPTIONS | Some b \<Rightarrow> b),
      keepCache =
        (case keepCache_opt options of None \<Rightarrow> keepCache DEFAULT_OPTIONS | Some b \<Rightarrow> b)\<rparr>"

datatype error = TypeError

text \<open>What the awaited loader call comes to: an array of items, or a throw or rejection.\<close>

datatype 'a loaded = Resolved "'a list" | Rejected

text \<open>
  \<open>timers\<close> holds the pending timers as (handle, delay); \<open>calls\<close> the loader
  invocations as (loader, argument); \<open>inflight\<close> the flushes waiting at
  \<^verbatim>\<open>await\<close>, as (index of the call in \<open>calls\<close>, the local \<^verbatim>\<open>itemsToFetch\<close>);
  \<open>notified\<close> the callback invocations as (identifier reported, callback, argument).
\<close>

record 'a engine =
  optionsWithDefaultValues :: Options
  currentLoader :: nat
  currentQueue :: "string option list"
  subscriptions :: "string \<rightharpoonup> callback list"
  itemStates :: "string \<rightharpoonup> 'a ItemState"
  currentTimeout :: "nat option"
  timers :: "(nat \<times> int) list"
  nextTimer :: nat
  calls :: "(nat \<times> string list) list"
  inflight :: "(nat \<times> string option list) list"
  notified :: "(string \<times> callback \<times> 'a ItemState) list"

subsection \<open>Reporting steps\<close>

text \<open>\<^verbatim>\<open>{...itemStates[id]}\<close>: the properties of the stored state, none if there is no state.\<close>

definition spread :: "'a ItemState option \<Rightarrow> 'a ItemState" where
  "spread st =
     (case st of
        None \<Rightarrow> \<lparr>isLoading = None, isQueued = None, hasErrors = None, data = Undefined\<rparr>
      | Some x \<Rightarrow> x)"

text \<open>\<^verbatim>\<open>callbacks.forEach((callback) => { callback(itemStates[id]); })\<close> after
  \<^verbatim>\<open>itemStates[id] = st\<close>.\<close>

definition notify :: "string \<Rightarrow> callback list \<Rightarrow> 'a ItemState \<Rightarrow> 'a engine \<Rightarrow> 'a engine" where
  "notify i callbacks st s =
     s\<lparr>notified := notified s @ map (\<lambda>callback. (i, callback, st)) callbacks\<rparr>"

text \<open>
  \<^verbatim>\<open>reportQueuing\<close> writes the state before it touches \<^verbatim>\<open>callbacks\<close>, and has no
  \<^verbatim>\<open>if (callbacks)\<close>: with no registry entry \<^verbatim>\<open>callbacks.forEach\<close> is a TypeError.
\<close>

fun reportQueuing :: "string option \<Rightarrow> 'a engine \<Rightarrow> error option \<times> 'a engine" where
  "reportQueuing None s = (None, s)"
| "reportQueuing (Some i) s =
     (if i = [] then (None, s)
      else
        let st = (spread (itemStates s i))\<lparr>isQueued := Some True\<rparr>;
            s1 = s\<lparr>itemStates := (itemStates s)(i \<mapsto> st)\<rparr>
        in case subscriptions s i of
             None \<Rightarrow> (Some TypeError, s1)
           | Some callbacks \<Rightarrow> (None, notify i callbacks st s1))"

text \<open>The body of the \<^verbatim>\<open>forEach\<close> of \<^verbatim>\<open>reportLoading\<close>.\<close>

fun loadingStep :: "string option \<Rightarrow> 'a engine \<Rightarrow> 'a engine" where
  "loadingStep None s = s"
| "loadingStep (Some i) s =
     (if i = [] then s
      else case subscriptions s i of
             None \<Rightarrow> s
           | Some callbacks \<Rightarrow>
               let st = (spread (itemStates s i))
                          \<lparr>hasErrors := Some False, isQueued := Some False, isLoading := Some True\<rparr>
               in notify i callbacks st (s\<lparr>itemStates := (itemStates s)(i \<mapsto> st)\<rparr>))"

definition reportLoading :: "string option list \<Rightarrow> 'a engine \<Rightarrow> 'a engine" where
  "reportLoading ids s = fold loadingStep ids s"

text \<open>The body of the \<^verbatim>\<open>forEach\<close> of \<^verbatim>\<open>reportFailed\<close>.\<close>

fun failedStep :: "string option \<Rightarrow> 'a engine \<Rightarrow> 'a engine" where
  "failedStep None s = s"
| "failedStep (Some i) s =
     (if i = [] then s
      else case subscriptions s i of
             None \<Rightarrow> s
           | Some callbacks \<Rightarrow>
               let st = (spread (itemStates s i))
                          \<lparr>hasErrors := Some True, isLoading := Some False\<rparr>
               in notify i callbacks st (s\<lparr>itemStates := (itemStates s)(i \<mapsto> st)\<rparr>))"

definition reportFailed :: "string option list \<Rightarrow> 'a engine \<Rightarrow> 'a engine" where
  "reportFailed ids s = fold failedStep ids s"

text \<open>
  The body of the \<^verbatim>\<open>forEach\<close> of \<^verbatim>\<open>reportFinished\<close>, on the pair of the local
  \<^verbatim>\<open>missingIds\<close> and the state.
\<close>

fun finishedStep ::
  "('a \<Rightarrow> string) \<Rightarrow> 'a list \<Rightarrow> string option \<Rightarrow> string list \<times> 'a engine \<Rightarrow> string list \<times> 'a engine"
where
  "finishedStep getId items None (missingIds, s) = (missingIds, s)"
| "finishedStep getId items (Some i) (missingIds, s) =
     (if i = [] then (missingIds, s)
      else case find (\<lambda>item. getId item = i) items of
             None \<Rightarrow> (missingIds @ [i], s)
           | Some item \<Rightarrow>
               (case subscriptions s i of
                  None \<Rightarrow> (missingIds, s)
                | Some callbacks \<Rightarrow>
                    let st = (spread (itemStates s i))
                               \<lparr>hasErrors := Some False, isLoading := Some False, data := Item item\<rparr>
                    in (missingIds,
                        notify i callbacks st (s\<lparr>itemStates := (itemStates s)(i \<mapsto> st)\<rparr>))))"

definition reportFinished ::
  "('a \<Rightarrow> string) \<Rightarrow> string option list \<Rightarrow> 'a list \<Rightarrow> 'a engine \<Rightarrow> 'a engine"
where
  "reportFinished getId ids items s =
     (case fold (finishedStep getId items) ids ([], s) of
        (missingIds, s1) \<Rightarrow> reportFailed (map Some missingIds) s1)"

subsection \<open>Scheduling\<close>

text \<open>utils/isDefined: neither \<^verbatim>\<open>undefined\<close> nor \<^verbatim>\<open>null\<close>.\<close>

definition isDefined :: "'b option \<Rightarrow> bool" where
  "isDefined item = (item \<noteq> None)"

text \<open>\<^verbatim>\<open>clearTimeout\<close> of the current handle, then \<^verbatim>\<open>setTimeout\<close> with a fresh one.\<close>

definition scheduleLoad :: "'a engine \<Rightarrow> 'a engine" where
  "scheduleLoad s =
     (let pending = (case currentTimeout s of
                       None \<Rightarrow> timers s
                     | Some h \<Rightarrow> filter (\<lambda>t. fst t \<noteq> h) (timers s));
          h' = nextTimer s
      in s\<lparr>currentTimeout := Some h',
           timers := pending @ [(h', debounce (optionsWithDefaultValues s))],
           nextTimer := Suc h'\<rparr>)"

definition addToQueue :: "string option \<Rightarrow> 'a engine \<Rightarrow> error option \<times> 'a engine" where
  "addToQueue i s =
     (case reportQueuing i (s\<lparr>currentQueue := currentQueue s @ [i]\<rparr>) of
        (Some e, s1) \<Rightarrow> (Some e, s1)
      | (None, s1) \<Rightarrow> (None, scheduleLoad s1))"

text \<open>
  The timer callback up to its \<^verbatim>\<open>await\<close>: timer \<open>h\<close> fires, the queue is taken and
  emptied, the identifiers are reported loading and the loader is called.
\<close>

definition timeoutCallback :: "nat \<Rightarrow> 'a engine \<Rightarrow> 'a engine" where
  "timeoutCallback h s =
     (if h \<notin> fst ` set (timers s) then s
      else
        let itemsToFetch = currentQueue s;
            s1 = reportLoading itemsToFetch
                   (s\<lparr>timers := filter (\<lambda>t. fst t \<noteq> h) (timers s), currentQueue := []\<rparr>)
        in s1\<lparr>calls := calls s1 @ [(currentLoader s1, map the (filter isDefined itemsToFetch))],
              inflight := inflight s1 @ [(length (calls s1), itemsToFetch)]\<rparr>)"

text \<open>
  The rest of the timer callback: the call with index \<open>k\<close> settles with \<open>result\<close>. The
  \<^verbatim>\<open>catch\<close> swallows the error; \<^verbatim>\<open>currentTimeout = null\<close> is unconditional.
\<close>

definition loaderSettled ::
  "('a \<Rightarrow> string) \<Rightarrow> nat \<Rightarrow> 'a loaded \<Rightarrow> 'a engine \<Rightarrow> 'a engine"
where
  "loaderSettled getId k result s =
     (case map_of (inflight s) k of
        None \<Rightarrow> s
      | Some itemsToFetch \<Rightarrow>
          let s0 = s\<lparr>inflight := filter (\<lambda>f. fst f \<noteq> k) (inflight s)\<rparr>;
              s1 = (case result of
                      Resolved items \<Rightarrow> reportFinished getId itemsToFetch items s0
                    | Rejected \<Rightarrow> reportFailed itemsToFetch s0)
          in s1\<lparr>currentTimeout := None\<rparr>)"

subsection \<open>The returned interface\<close>

definition createBatchLoader :: "nat \<Rightarrow> PartialOptions \<Rightarrow> 'a engine" where
  "createBatchLoader loader options =
     (let s = \<lparr>optionsWithDefaultValues = withDefaults options,
               currentLoader = loader,
               currentQueue = [],
               subscriptions = Map.empty,
               itemStates = Map.empty,
               currentTimeout = None,
               timers = [],
               nextTimer = 1,
               calls = [],
               inflight = [],
               notified = []\<rparr>
      in if loadWithoutItems (optionsWithDefaultValues s) then snd (addToQueue None s) else s)"

definition setLoader :: "nat \<Rightarrow> 'a engine \<Rightarrow> 'a engine" where
  "setLoader newLoader s = s\<lparr>currentLoader := newLoader\<rparr>"

definition setDebounce :: "int \<Rightarrow> 'a engine \<Rightarrow> 'a engine" where
  "setDebounce newDebounce s =
     s\<lparr>optionsWithDefaultValues := (optionsWithDefaultValues s)\<lparr>debounce := newDebounce\<rparr>\<rparr>"

text \<open>\<^verbatim>\<open>itemStates[id] || NEW_ITEM_STATE\<close>: a stored state is an object, hence truthy.\<close>

definition getItem :: "string \<Rightarrow> 'a engine \<Rightarrow> 'a ItemState" where
  "getItem i s = (case itemStates s i of None \<Rightarrow> NEW_ITEM_STATE | Some st \<Rightarrow> st)"

definition refresh :: "string \<Rightarrow> 'a engine \<Rightarrow> error option \<times> 'a engine" where
  "refresh i s = addToQueue (Some i) s"

text \<open>\<^verbatim>\<open>forEach((id) => addToQueue(id))\<close>: an exception ends the loop.\<close>

fun addAllToQueue :: "string option list \<Rightarrow> 'a engine \<Rightarrow> error option \<times> 'a engine" where
  "addAllToQueue [] s = (None, s)"
| "addAllToQueue (i # ids) s =
     (case addToQueue i s of
        (Some e, s1) \<Rightarrow> (Some e, s1)
      | (None, s1) \<Rightarrow> addAllToQueue ids s1)"

text \<open>
  \<open>keys\<close> is the array that \<^verbatim>\<open>Object.keys(subscriptions)\<close> returned; the order in
  which JavaScript lists the keys is left open.
\<close>

definition refreshAll :: "string list \<Rightarrow> 'a engine \<Rightarrow> error option \<times> 'a engine" where
  "refreshAll keys s =
     (case addAllToQueue (map Some keys) s of
        (Some e, s1) \<Rightarrow> (Some e, s1)
      | (None, s1) \<Rightarrow>
          if loadWithoutItems (optionsWithDefaultValues s1) then addToQueue None s1
          else (None, s1))"

text \<open>
  \<^verbatim>\<open>!subscriptions[id]\<close> holds exactly when there is no entry: an array, even an empty
  one, is truthy.
\<close>

definition subscribe :: "string \<Rightarrow> callback \<Rightarrow> 'a engine \<Rightarrow> error option \<times> 'a engine" where
  "subscribe i callback s =
     (case (case subscriptions s i of
              None \<Rightarrow>
                addToQueue (Some i)
                  (s\<lparr>subscriptions := (subscriptions s)(i \<mapsto> []),
                     itemStates := (itemStates s)(i \<mapsto> NEW_ITEM_STATE)\<rparr>)
            | Some _ \<Rightarrow> (None, s)) of
        (Some e, s1) \<Rightarrow> (Some e, s1)
      | (None, s1) \<Rightarrow>
          (case subscriptions s1 i of
             None \<Rightarrow> (Some TypeError, s1)
           | Some callbacks \<Rightarrow>
               (None, s1\<lparr>subscriptions := (subscriptions s1)(i \<mapsto> callbacks @ [callback])\<rparr>)))"

text \<open>
  The function that \<^verbatim>\<open>subscribe(id, callback)\<close> returns. With no entry for \<open>i\<close>,
  \<^verbatim>\<open>subscriptions[id].filter\<close> is a TypeError.
\<close>

definition unsubscribe :: "string \<Rightarrow> callback \<Rightarrow> 'a engine \<Rightarrow> error option \<times> 'a engine" where
  "unsubscribe i callback s =
     (case subscriptions s i of
        None \<Rightarrow> (Some TypeError, s)
      | Some callbacks \<Rightarrow>
          let remaining = filter (\<lambda>c. c \<noteq> callback) callbacks;
              s1 = s\<lparr>subscriptions := (subscriptions s)(i \<mapsto> remaining)\<rparr>
          in if remaining = [] \<and> \<not> keepCache (optionsWithDefaultValues s1)
             then (None, s1\<lparr>subscriptions := (subscriptions s1)(i := None),
                            itemStates := (itemStates s1)(i := None)\<rparr>)
             else (None, s1))"

subsection \<open>Runs of the engine\<close>

text \<open>
  What can happen to an engine: a call of its interface, a pending timer firing, or an
  awaited loader call settling. \<open>Dispose i callback\<close> is a call of the function that
  \<open>subscribe i callback\<close> returned.
\<close>

datatype 'a event =
    SetLoader nat
  | SetDebounce int
  | GetItem string
  | Refresh string
  | RefreshAll "string list"
  | Subscribe string callback
  | Dispose string callback
  | TimerFires nat
  | LoaderSettles nat "'a loaded"

fun step :: "('a \<Rightarrow> string) \<Rightarrow> 'a event \<Rightarrow> 'a engine \<Rightarrow> error option \<times> 'a engine" where
  "step getId (SetLoader newLoader) s = (None, setLoader newLoader s)"
| "step getId (SetDebounce newDebounce) s = (None, setDebounce newDebounce s)"
| "step getId (GetItem i) s = (None, s)"
| "step getId (Refresh i) s = refresh i s"
| "step getId (RefreshAll keys) s = refreshAll keys s"
| "step getId (Subscribe i callback) s = subscribe i callback s"
| "step getId (Dispose i callback) s = unsubscribe i callback s"
| "step getId (TimerFires h) s = (None, timeoutCallback h s)"
| "step getId (LoaderSettles k result) s = (None, loaderSettled getId k result s)"

text \<open>
  \<open>RefreshAll keys\<close> can happen only when \<open>keys\<close> lists the keys of the registry, a
  timer can fire only while it is pending, a call can settle only while it is awaited.
\<close>

fun enabled :: "'a event \<Rightarrow> 'a engine \<Rightarrow> bool" where
  "enabled (RefreshAll keys) s = (set keys = dom (subscriptions s) \<and> distinct keys)"
| "enabled (TimerFires h) s = (h \<in> fst ` set (timers s))"
| "enabled (LoaderSettles k result) s = (k \<in> fst ` set (inflight s))"
| "enabled _ s = True"

text \<open>
  A run applies events in turn; a caller that gets an exception goes on with the state
  as the exception left it. The run is \<open>None\<close> when an event cannot happen.
\<close>

fun run :: "('a \<Rightarrow> string) \<Rightarrow> 'a event list \<Rightarrow> 'a engine \<Rightarrow> 'a engine option" where
  "run getId [] s = Some s"
| "run getId (e # es) s =
     (if enabled e s then run getId es (snd (step getId e s)) else None)"

subsection \<open>The fixtures of createBatchLoader.test.ts\<close>

datatype MockedItem = MockedItem string

fun mockedId :: "MockedItem \<Rightarrow> string" where
  "mockedId (MockedItem i) = i"

definition MOCKED_ITEM :: MockedItem where
  "MOCKED_ITEM = MockedItem ''1''"

definition MOCKED_ITEM2 :: MockedItem where
  "MOCKED_ITEM2 = MockedItem ''2''"

text \<open>\<^verbatim>\<open>createBatchLoader((item) => item.id, loadItems, {debounce: 100, keepCache})\<close>\<close>

definition testLoader :: "bool \<Rightarrow> MockedItem engine" where
  "testLoader keep =
     createBatchLoader 0
       \<lparr>debounce_opt = Some 100, loadWithoutItems_opt = None, keepCache_opt = Some keep\<rparr>"

text \<open>
  The start of the tests on unsubscribing: callback 7 subscribes to "1", the timer
  fires and the loader resolves with both items.
\<close>

definition loadedState :: "bool \<Rightarrow> MockedItem engine" where
  "loadedState keep =
     loaderSettled mockedId 0 (Resolved [MOCKED_ITEM, MOCKED_ITEM2])
       (timeoutCallback 1 (snd (subscribe ''1'' 7 (testLoader keep))))"

definition LOADED_STATE :: "MockedItem ItemState" where
  "LOADED_STATE =
     \<lparr>isLoading = Some False, isQueued = Some False, hasErrors = Some False,
      data = Item MOCKED_ITEM\<rparr>"

subsection \<open>Auxiliary notions for the proofs\<close>

text \<open>
  The three reporting loops have one shape: for a truthy identifier with a registry
  entry, store a marked copy of the state and notify the callbacks. \<open>markStep\<close> is that
  shape, with \<open>sel\<close> giving the marking of an identifier (or none); \<open>notesOf\<close> lists the
  notifications that one identifier causes. They are shown below to agree with the
  loops of the source.
\<close>

definition markStep ::
  "(string \<Rightarrow> ('a ItemState \<Rightarrow> 'a ItemState) option) \<Rightarrow> string option \<Rightarrow> 'a engine \<Rightarrow> 'a engine"
where
  "markStep sel x s =
     (case x of
        None \<Rightarrow> s
      | Some i \<Rightarrow>
          if i = [] then s
          else case sel i of
                 None \<Rightarrow> s
               | Some mark \<Rightarrow>
                   (case subscriptions s i of
                      None \<Rightarrow> s
                    | Some callbacks \<Rightarrow>
                        notify i callbacks (mark (spread (itemStates s i)))
                          (s\<lparr>itemStates := (itemStates s)(i \<mapsto> mark (spread (itemStates s i)))\<rparr>)))"

definition notesOf ::
  "(string \<Rightarrow> ('a ItemState \<Rightarrow> 'a ItemState) option) \<Rightarrow> 'a engine \<Rightarrow> string option
     \<Rightarrow> (string \<times> callback \<times> 'a ItemState) list"
where
  "notesOf sel s x =
     (case x of
        None \<Rightarrow> []
      | Some i \<Rightarrow>
          if i = [] then []
          else case sel i of
                 None \<Rightarrow> []
               | Some mark \<Rightarrow>
                   (case subscriptions s i of
                      None \<Rightarrow> []
                    | Some callbacks \<Rightarrow>
                        map (\<lambda>callback. (i, callback, mark (spread (itemStates s i)))) callbacks))"

definition idem :: "(string \<Rightarrow> ('a ItemState \<Rightarrow> 'a ItemState) option) \<Rightarrow> bool" where
  "idem sel = (\<forall>i mark st. sel i = Some mark \<longrightarrow> mark (mark st) = mark st)"

definition loadingSel :: "string \<Rightarrow> ('a ItemState \<Rightarrow> 'a ItemState) option" where
  "loadingSel i = Some (\<lambda>st. st\<lparr>hasErrors := Some False, isQueued := Some False, isLoading := Some True\<rparr>)"

definition failedSel :: "string \<Rightarrow> ('a ItemState \<Rightarrow> 'a ItemState) option" where
  "failedSel i = Some (\<lambda>st. st\<lparr>hasErrors := Some True, isLoading := Some False\<rparr>)"

definition finishedSel :: "('a \<Rightarrow> string) \<Rightarrow> 'a list \<Rightarrow> string \<Rightarrow> ('a ItemState \<Rightarrow> 'a ItemState) option" where
  "finishedSel getId items i =
     (case find (\<lambda>item. getId item = i) items of
        None \<Rightarrow> None
      | Some item \<Rightarrow> Some (\<lambda>st. st\<lparr>hasErrors := Some False, isLoading := Some False, data := Item item\<rparr>))"

definition missing :: "('a \<Rightarrow> string) \<Rightarrow> 'a list \<Rightarrow> string option list \<Rightarrow> string list" where
  "missing getId items ids =
     concat (map (\<lambda>x. case x of None \<Rightarrow> [] | Some i \<Rightarrow>
        if i \<noteq> [] \<and> find (\<lambda>item. getId item = i) items = None then [i] else []) ids)"



text \<open>
  What a call puts on the queue: \<open>refresh\<close> its identifier, \<open>subscribe\<close> its
  identifier when it has no registry entry.
\<close>

fun enqueuedBy :: "'a event \<Rightarrow> 'a engine \<Rightarrow> string option list" where
  "enqueuedBy (Refresh i) s = [Some i]"
| "enqueuedBy (Subscribe i callback) s = (if subscriptions s i = None then [Some i] else [])"
| "enqueuedBy _ s = []"

text \<open>
  A burst: calls that each enqueue and return normally, with nothing else in between.
  It yields the identifiers enqueued, in order, and the state reached.
\<close>

fun burst ::
  "('a \<Rightarrow> string) \<Rightarrow> 'a event list \<Rightarrow> 'a engine \<Rightarrow> (string option list \<times> 'a engine) option"
where
  "burst getId [] s = Some ([], s)"
| "burst getId (e # es) s =
     (if enqueuedBy e s \<noteq> [] \<and> fst (step getId e s) = None
      then (case burst getId es (snd (step getId e s)) of
              None \<Rightarrow> None
            | Some (ids, s') \<Rightarrow> Some (enqueuedBy e s @ ids, s'))
      else None)"

text \<open>No timer is pending except the one \<open>currentTimeout\<close> holds.\<close>

definition onlyCurrentTimer :: "'a engine \<Rightarrow> bool" where
  "onlyCurrentTimer s = (\<forall>t \<in> set (timers s). currentTimeout s = Some (fst t))"

text \<open>Every load in flight is indexed by a call that has been made.\<close>

definition indexed :: "'a engine \<Rightarrow> bool" where
  "indexed s = (\<forall>k \<in> fst ` set (inflight s). k < length (calls s))"

section \<open>Properties\<close>

subsection \<open>What the reporting steps leave alone\<close>

lemma notify_frame [simp]:
  "optionsWithDefaultValues (notify i cbs st s) = optionsWithDefaultValues s"
  "currentLoader (notify i cbs st s) = currentLoader s"
  "currentQueue (notify i cbs st s) = currentQueue s"
  "subscriptions (notify i cbs st s) = subscriptions s"
  "itemStates (notify i cbs st s) = itemStates s"
  "currentTimeout (notify i cbs st s) = currentTimeout s"
  "timers (notify i cbs st s) = timers s"
  "nextTimer (notify i cbs st s) = nextTimer s"
  "calls (notify i cbs st s) = calls s"
  "inflight (notify i cbs st s) = inflight s"
  "notified (notify i cbs st s) = notified s @ map (\<lambda>callback. (i, callback, st)) cbs"
  by (simp_all add: notify_def)

lemma markStep_frame [simp]:
  "optionsWithDefaultValues (markStep sel x s) = optionsWithDefaultValues s"
  "currentLoader (markStep sel x s) = currentLoader s"
  "currentQueue (markStep sel x s) = currentQueue s"
  "subscriptions (markStep sel x s) = subscriptions s"
  "currentTimeout (markStep sel x s) = currentTimeout s"
  "timers (markStep sel x s) = timers s"
  "nextTimer (markStep sel x s) = nextTimer s"
  "calls (markStep sel x s) = calls s"
  "inflight (markStep sel x s) = inflight s"
  by (simp_all add: markStep_def split: option.split)

lemma markFold_frame [simp]:
  "optionsWithDefaultValues (fold (markStep sel) ids s) = optionsWithDefaultValues s"
  "currentLoader (fold (markStep sel) ids s) = currentLoader s"
  "currentQueue (fold (markStep sel) ids s) = currentQueue s"
  "subscriptions (fold (markStep sel) ids s) = subscriptions s"
  "currentTimeout (fold (markStep sel) ids s) = currentTimeout s"
  "timers (fold (markStep sel) ids s) = timers s"
  "nextTimer (fold (markStep sel) ids s) = nextTimer s"
  "calls (fold (markStep sel) ids s) = calls s"
  "inflight (fold (markStep sel) ids s) = inflight s"
  by (induction ids arbitrary: s; simp)+

lemma spread_Some [simp]: "spread (Some st) = st"
  by (simp add: spread_def)

lemma markStep_itemStates:
  "itemStates (markStep sel x s) i =
     (if x = Some i \<and> i \<noteq> [] \<and> subscriptions s i \<noteq> None
      then (case sel i of
              None \<Rightarrow> itemStates s i
            | Some mark \<Rightarrow> Some (mark (spread (itemStates s i))))
      else itemStates s i)"
  by (auto simp: markStep_def split: option.split)

lemma markFold_itemStates:
  assumes "idem sel"
  shows "itemStates (fold (markStep sel) ids s) i =
     (if Some i \<in> set ids \<and> i \<noteq> [] \<and> subscriptions s i \<noteq> None
      then (case sel i of
              None \<Rightarrow> itemStates s i
            | Some mark \<Rightarrow> Some (mark (spread (itemStates s i))))
      else itemStates s i)"
proof (induction ids arbitrary: s)
  case Nil
  show ?case by simp
next
  case (Cons x ids)
  show ?case
  proof (cases "sel i")
    case None
    then show ?thesis by (simp add: Cons.IH markStep_itemStates)
  next
    case (Some mark)
    with assms have "mark (mark st) = mark st" for st
      by (auto simp: idem_def)
    with Some show ?thesis
      by (auto simp: Cons.IH markStep_itemStates)
  qed
qed

lemma notesOf_markStep:
  assumes "idem sel"
  shows "notesOf sel (markStep sel x s) y = notesOf sel s y"
proof (cases y)
  case None
  then show ?thesis by (simp add: notesOf_def)
next
  case (Some i)
  show ?thesis
  proof (cases "sel i")
    case None
    with Some show ?thesis by (simp add: notesOf_def)
  next
    case (Some mark)
    with assms have "mark (mark st) = mark st" for st
      by (auto simp: idem_def)
    with Some \<open>y = Some i\<close> show ?thesis
      by (simp add: notesOf_def markStep_itemStates split: option.split)
  qed
qed

lemma markStep_notified:
  "notified (markStep sel x s) = notified s @ notesOf sel s x"
  by (simp add: markStep_def notesOf_def split: option.split)

lemma markFold_notified:
  assumes "idem sel"
  shows "notified (fold (markStep sel) ids s) = notified s @ concat (map (notesOf sel s) ids)"
proof (induction ids arbitrary: s)
  case Nil
  show ?case by simp
next
  case (Cons x ids)
  have "notesOf sel (markStep sel x s) = notesOf sel s"
    using notesOf_markStep [OF assms] by blast
  then show ?case
    by (simp add: Cons.IH markStep_notified)
qed

lemma idem_loadingSel [simp]: "idem loadingSel"
  by (simp add: idem_def loadingSel_def)

lemma idem_failedSel [simp]: "idem failedSel"
  by (simp add: idem_def failedSel_def)

lemma idem_finishedSel [simp]: "idem (finishedSel getId items)"
  by (auto simp: idem_def finishedSel_def split: option.splits)

lemma loadingStep_markStep: "loadingStep = markStep loadingSel"
proof (intro ext)
  fix x and s :: "'a engine"
  show "loadingStep x s = markStep loadingSel x s"
    by (cases x) (simp_all add: markStep_def loadingSel_def Let_def split: option.split)
qed

lemma failedStep_markStep: "failedStep = markStep failedSel"
proof (intro ext)
  fix x and s :: "'a engine"
  show "failedStep x s = markStep failedSel x s"
    by (cases x) (simp_all add: markStep_def failedSel_def Let_def split: option.split)
qed

lemma reportLoading_markFold: "reportLoading ids s = fold (markStep loadingSel) ids s"
  by (simp add: reportLoading_def loadingStep_markStep)

lemma reportFailed_markFold: "reportFailed ids s = fold (markStep failedSel) ids s"
  by (simp add: reportFailed_def failedStep_markStep)

lemma finishedStep_markStep:
  "finishedStep getId items x (m, s) =
     (m @ missing getId items [x], markStep (finishedSel getId items) x s)"
  by (cases x) (simp_all add: markStep_def finishedSel_def missing_def Let_def split: option.split)

lemma missing_Cons: "missing getId items (x # ids) = missing getId items [x] @ missing getId items ids"
  by (simp add: missing_def)

lemma finishedFold_markFold:
  "fold (finishedStep getId items) ids (m, s) =
     (m @ missing getId items ids, fold (markStep (finishedSel getId items)) ids s)"
proof (induction ids arbitrary: m s)
  case Nil
  show ?case by (simp add: missing_def)
next
  case (Cons x ids)
  show ?case
    by (simp add: finishedStep_markStep Cons.IH) (simp add: missing_Cons [of _ _ x ids])
qed

lemma reportFinished_markFold:
  "reportFinished getId ids items s =
     fold (markStep failedSel) (map Some (missing getId items ids))
       (fold (markStep (finishedSel getId items)) ids s)"
  by (simp add: reportFinished_def finishedFold_markFold reportFailed_markFold)

subsection \<open>The stored states after the reporting steps\<close>

lemma reportLoading_frame [simp]:
  "optionsWithDefaultValues (reportLoading ids s) = optionsWithDefaultValues s"
  "currentLoader (reportLoading ids s) = currentLoader s"
  "currentQueue (reportLoading ids s) = currentQueue s"
  "subscriptions (reportLoading ids s) = subscriptions s"
  "currentTimeout (reportLoading ids s) = currentTimeout s"
  "timers (reportLoading ids s) = timers s"
  "nextTimer (reportLoading ids s) = nextTimer s"
  "calls (reportLoading ids s) = calls s"
  "inflight (reportLoading ids s) = inflight s"
  by (simp_all add: reportLoading_markFold)

lemma reportFailed_frame [simp]:
  "optionsWithDefaultValues (reportFailed ids s) = optionsWithDefaultValues s"
  "currentLoader (reportFailed ids s) = currentLoader s"
  "currentQueue (reportFailed ids s) = currentQueue s"
  "subscriptions (reportFailed ids s) = subscriptions s"
  "currentTimeout (reportFailed ids s) = currentTimeout s"
  "timers (reportFailed ids s) = timers s"
  "nextTimer (reportFailed ids s) = nextTimer s"
  "calls (reportFailed ids s) = calls s"
  "inflight (reportFailed ids s) = inflight s"
  by (simp_all add: reportFailed_markFold)

lemma reportFinished_frame [simp]:
  "optionsWithDefaultValues (reportFinished getId ids items s) = optionsWithDefaultValues s"
  "currentLoader (reportFinished getId ids items s) = currentLoader s"
  "currentQueue (reportFinished getId ids items s) = currentQueue s"
  "subscriptions (reportFinished getId ids items s) = subscriptions s"
  "currentTimeout (reportFinished getId ids items s) = currentTimeout s"
  "timers (reportFinished getId ids items s) = timers s"
  "nextTimer (reportFinished getId ids items s) = nextTimer s"
  "calls (reportFinished getId ids items s) = calls s"
  "inflight (reportFinished getId ids items s) = inflight s"
  by (simp_all add: reportFinished_markFold)

lemma set_missing:
  "i \<in> set (missing getId items ids) \<longleftrightarrow>
     Some i \<in> set ids \<and> i \<noteq> [] \<and> find (\<lambda>item. getId item = i) items = None"
  by (induction ids) (auto simp: missing_def split: option.splits if_splits)

lemma reportLoading_itemStates:
  "itemStates (reportLoading ids s) i =
     (if Some i \<in> set ids \<and> i \<noteq> [] \<and> subscriptions s i \<noteq> None
      then Some ((spread (itemStates s i))
                   \<lparr>hasErrors := Some False, isQueued := Some False, isLoading := Some True\<rparr>)
      else itemStates s i)"
  by (auto simp: reportLoading_markFold markFold_itemStates loadingSel_def)

lemma reportFailed_itemStates:
  "itemStates (reportFailed ids s) i =
     (if Some i \<in> set ids \<and> i \<noteq> [] \<and> subscriptions s i \<noteq> None
      then Some ((spread (itemStates s i))\<lparr>hasErrors := Some True, isLoading := Some False\<rparr>)
      else itemStates s i)"
  by (auto simp: reportFailed_markFold markFold_itemStates failedSel_def)

lemma reportFinished_itemStates:
  "itemStates (reportFinished getId ids items s) i =
     (if Some i \<in> set ids \<and> i \<noteq> [] \<and> subscriptions s i \<noteq> None
      then (case find (\<lambda>item. getId item = i) items of
              None \<Rightarrow>
                Some ((spread (itemStates s i))\<lparr>hasErrors := Some True, isLoading := Some False\<rparr>)
            | Some item \<Rightarrow>
                Some ((spread (itemStates s i))
                        \<lparr>hasErrors := Some False, isLoading := Some False, data := Item item\<rparr>))
      else itemStates s i)"
  by (auto simp: reportFinished_markFold markFold_itemStates failedSel_def finishedSel_def
        set_missing image_iff split: option.splits)

lemma scheduleLoad_frame [simp]:
  "optionsWithDefaultValues (scheduleLoad s) = optionsWithDefaultValues s"
  "currentLoader (scheduleLoad s) = currentLoader s"
  "currentQueue (scheduleLoad s) = currentQueue s"
  "subscriptions (scheduleLoad s) = subscriptions s"
  "itemStates (scheduleLoad s) = itemStates s"
  "calls (scheduleLoad s) = calls s"
  "inflight (scheduleLoad s) = inflight s"
  "notified (scheduleLoad s) = notified s"
  by (simp_all add: scheduleLoad_def Let_def)

lemma reportQueuing_frame [simp]:
  "optionsWithDefaultValues (snd (reportQueuing x s)) = optionsWithDefaultValues s"
  "currentLoader (snd (reportQueuing x s)) = currentLoader s"
  "currentQueue (snd (reportQueuing x s)) = currentQueue s"
  "subscriptions (snd (reportQueuing x s)) = subscriptions s"
  "currentTimeout (snd (reportQueuing x s)) = currentTimeout s"
  "timers (snd (reportQueuing x s)) = timers s"
  "nextTimer (snd (reportQueuing x s)) = nextTimer s"
  "calls (snd (reportQueuing x s)) = calls s"
  "inflight (snd (reportQueuing x s)) = inflight s"
  by (cases x; simp add: Let_def split: option.split)+

lemma reportQueuing_itemStates:
  "itemStates (snd (reportQueuing x s)) i =
     (if x = Some i \<and> i \<noteq> []
      then Some ((spread (itemStates s i))\<lparr>isQueued := Some True\<rparr>)
      else itemStates s i)"
  by (cases x) (auto simp: Let_def split: option.split)

lemma addToQueue_fst:
  "fst (addToQueue x s) = fst (reportQueuing x (s\<lparr>currentQueue := currentQueue s @ [x]\<rparr>))"
  by (simp add: addToQueue_def split: prod.split option.split)

lemma addToQueue_snd:
  "snd (addToQueue x s) =
     (if fst (reportQueuing x (s\<lparr>currentQueue := currentQueue s @ [x]\<rparr>)) = None
      then scheduleLoad (snd (reportQueuing x (s\<lparr>currentQueue := currentQueue s @ [x]\<rparr>)))
      else snd (reportQueuing x (s\<lparr>currentQueue := currentQueue s @ [x]\<rparr>)))"
  by (simp add: addToQueue_def split: prod.split option.split)

lemma addToQueue_frame [simp]:
  "optionsWithDefaultValues (snd (addToQueue x s)) = optionsWithDefaultValues s"
  "currentLoader (snd (addToQueue x s)) = currentLoader s"
  "currentQueue (snd (addToQueue x s)) = currentQueue s @ [x]"
  "subscriptions (snd (addToQueue x s)) = subscriptions s"
  "calls (snd (addToQueue x s)) = calls s"
  "inflight (snd (addToQueue x s)) = inflight s"
  by (simp_all add: addToQueue_snd)

lemma addToQueue_itemStates:
  "itemStates (snd (addToQueue x s)) i =
     (if x = Some i \<and> i \<noteq> []
      then Some ((spread (itemStates s i))\<lparr>isQueued := Some True\<rparr>)
      else itemStates s i)"
  by (simp add: addToQueue_snd reportQueuing_itemStates del: reportQueuing.simps)

lemma reportQueuing_fst:
  "fst (reportQueuing x s) =
     (case x of
        None \<Rightarrow> None
      | Some i \<Rightarrow> if i \<noteq> [] \<and> subscriptions s i = None then Some TypeError else None)"
  by (cases x) (auto simp: Let_def split: option.split)

declare reportQueuing.simps [simp del]
declare loadingStep.simps [simp del]
declare failedStep.simps [simp del]
declare finishedStep.simps [simp del]

subsection \<open>Identifiers that a run never registers\<close>

lemma addAllToQueue_Cons:
  "addAllToQueue (x # ids) s =
     (if fst (addToQueue x s) = None then addAllToQueue ids (snd (addToQueue x s))
      else addToQueue x s)"
  by (cases "addToQueue x s") (auto split: option.split)


lemma refreshAll_unfold:
  "refreshAll keys s =
     (if fst (addAllToQueue (map Some keys) s) = None
      then if loadWithoutItems (optionsWithDefaultValues (snd (addAllToQueue (map Some keys) s)))
           then addToQueue None (snd (addAllToQueue (map Some keys) s))
           else (None, snd (addAllToQueue (map Some keys) s))
      else addAllToQueue (map Some keys) s)"
  by (cases "addAllToQueue (map Some keys) s") (auto simp: refreshAll_def split: option.split)


lemma subscribe_new:
  assumes "subscriptions s j = None"
  shows "subscribe j callback s =
     (None, (snd (addToQueue (Some j)
                (s\<lparr>subscriptions := (subscriptions s)(j \<mapsto> []),
                   itemStates := (itemStates s)(j \<mapsto> NEW_ITEM_STATE)\<rparr>)))
             \<lparr>subscriptions := (subscriptions s)(j \<mapsto> [callback])\<rparr>)"
proof -
  let ?s0 = "s\<lparr>subscriptions := (subscriptions s)(j \<mapsto> []),
                itemStates := (itemStates s)(j \<mapsto> NEW_ITEM_STATE)\<rparr>"
  obtain e s1 where r: "addToQueue (Some j) ?s0 = (e, s1)"
    by (cases "addToQueue (Some j) ?s0")
  have "fst (addToQueue (Some j) ?s0) = None"
    by (simp add: addToQueue_fst reportQueuing_fst)
  with r have e: "e = None" by simp
  have "subscriptions (snd (addToQueue (Some j) ?s0)) = (subscriptions s)(j \<mapsto> [])"
    by simp
  with r have "subscriptions s1 = (subscriptions s)(j \<mapsto> [])" by simp
  with assms r e show ?thesis
    by (simp add: subscribe_def)
qed

lemma subscribe_existing:
  assumes "subscriptions s j = Some callbacks"
  shows "subscribe j callback s =
     (None, s\<lparr>subscriptions := (subscriptions s)(j \<mapsto> callbacks @ [callback])\<rparr>)"
  using assms by (simp add: subscribe_def)








subsection \<open>The disposer\<close>

text \<open>
  C6. When the last observer of an identifier unsubscribes and \<open>keepCache\<close> is false,
  the registry entry and the stored state are removed together and \<open>getItem\<close> returns the
  default state afterward; when \<open>keepCache\<close> is true the stored state is kept and
  \<open>getItem\<close> returns what it returned before.
\<close>

theorem unsubscribe_last_observer:
  assumes "subscriptions s i = Some callbacks"
    and "filter (\<lambda>c. c \<noteq> callback) callbacks = []"
  shows "fst (unsubscribe i callback s) = None
    \<and> (\<not> keepCache (optionsWithDefaultValues s) \<longrightarrow>
           subscriptions (snd (unsubscribe i callback s)) i = None
         \<and> itemStates (snd (unsubscribe i callback s)) i = None
         \<and> getItem i (snd (unsubscribe i callback s)) = NEW_ITEM_STATE)
    \<and> (keepCache (optionsWithDefaultValues s) \<longrightarrow>
           subscriptions (snd (unsubscribe i callback s)) i = Some []
         \<and> itemStates (snd (unsubscribe i callback s)) i = itemStates s i
         \<and> getItem i (snd (unsubscribe i callback s)) = getItem i s)"
  using assms by (simp add: unsubscribe_def Let_def getItem_def)

theorem unsubscribe_last_observer_witness:
  "subscriptions (loadedState False) ''1'' = Some [7]
   \<and> subscriptions (loadedState True) ''1'' = Some [7]
   \<and> filter (\<lambda>c. c \<noteq> 7) [7::nat] = []
   \<and> \<not> keepCache (optionsWithDefaultValues (loadedState False))
   \<and> keepCache (optionsWithDefaultValues (loadedState True))
   \<and> getItem ''1'' (loadedState False) = LOADED_STATE
   \<and> getItem ''1'' (snd (unsubscribe ''1'' 7 (loadedState False))) = NEW_ITEM_STATE
   \<and> getItem ''1'' (snd (unsubscribe ''1'' 7 (loadedState True))) = LOADED_STATE"
proof -
  have f1: "subscriptions (loadedState False) ''1'' = Some [7]" by code_simp
  have t1: "subscriptions (loadedState True) ''1'' = Some [7]" by code_simp
  have h2: "filter (\<lambda>c. c \<noteq> 7) [7::nat] = []" by simp
  have f3: "\<not> keepCache (optionsWithDefaultValues (loadedState False))" by code_simp
  have t3: "keepCache (optionsWithDefaultValues (loadedState True))" by code_simp
  have f4: "getItem ''1'' (loadedState False) = LOADED_STATE" by code_simp
  have t4: "getItem ''1'' (loadedState True) = LOADED_STATE" by code_simp
  from unsubscribe_last_observer [OF f1 h2] unsubscribe_last_observer [OF t1 h2]
    f1 t1 h2 f3 t3 f4 t4
  show ?thesis by simp
qed

text \<open>
  C10. The disposer is not idempotent: when its first call removed the last observer
  with \<open>keepCache\<close> false, the entry is gone and a second call throws.
\<close>

theorem disposer_not_idempotent:
  assumes "subscriptions s i = Some callbacks"
    and "filter (\<lambda>c. c \<noteq> callback) callbacks = []"
    and "\<not> keepCache (optionsWithDefaultValues s)"
  shows "fst (unsubscribe i callback s) = None
    \<and> subscriptions (snd (unsubscribe i callback s)) i = None
    \<and> unsubscribe i callback (snd (unsubscribe i callback s))
        = (Some TypeError, snd (unsubscribe i callback s))"
  using assms by (simp add: unsubscribe_def Let_def)

theorem disposer_not_idempotent_witness:
  "subscriptions (snd (subscribe ''1'' 7 (testLoader False))) ''1'' = Some [7]
   \<and> filter (\<lambda>c. c \<noteq> 7) [7::nat] = []
   \<and> \<not> keepCache (optionsWithDefaultValues (snd (subscribe ''1'' 7 (testLoader False))))
   \<and> fst (unsubscribe ''1'' 7
            (snd (unsubscribe ''1'' 7 (snd (subscribe ''1'' 7 (testLoader False))))))
       = Some TypeError"
proof -
  let ?s = "snd (subscribe ''1'' 7 (testLoader False)) :: MockedItem engine"
  have h1: "subscriptions ?s ''1'' = Some [7]" by code_simp
  have h2: "filter (\<lambda>c. c \<noteq> 7) [7::nat] = []" by simp
  have h3: "\<not> keepCache (optionsWithDefaultValues ?s)" by code_simp
  from disposer_not_idempotent [OF h1 h2 h3] h1 h2 h3 show ?thesis by simp
qed

subsection \<open>Reading an item\<close>





subsection \<open>Refreshing an identifier that is not registered\<close>

text \<open>
  C1. The claim is that \<open>refresh\<close> of an identifier with no registry entry succeeds
  as a no-op: no state write, no notification, no exception. On a fresh engine,
  \<open>refresh "1"\<close> throws a TypeError instead, after it has put "1" on the queue and
  stored a state holding only \<open>isQueued\<close>: \<open>reportQueuing\<close>, unlike the three other
  reporting steps, does not test \<open>callbacks\<close>.
\<close>

theorem refresh_unregistered_throws:
  "itemStates (testLoader False) ''1'' = None
   \<and> fst (refresh ''1'' (testLoader False)) = Some TypeError
   \<and> itemStates (snd (refresh ''1'' (testLoader False))) ''1''
       = Some \<lparr>isLoading = None, isQueued = Some True, hasErrors = None, data = Undefined\<rparr>
   \<and> currentQueue (snd (refresh ''1'' (testLoader False))) = [Some ''1'']"
  by code_simp

subsection \<open>The empty string as an identifier\<close>

text \<open>
  C5. The claim is that a rejected load marks every identifier of the flushed
  snapshot that still has a registry entry as failed. With a subscriber to the empty
  string, the loader is called with the empty string, rejects, and the entry keeps the
  default state with no notification: \<open>if (id)\<close> in \<open>reportFailed\<close> takes the empty
  string for the sentinel, while \<open>isDefined\<close> passes it to the loader.
\<close>

theorem empty_identifier_not_marked_failed:
  "subscriptions
     (loaderSettled mockedId 0 Rejected
        (timeoutCallback 1 (snd (subscribe [] 7 (testLoader False))))) [] = Some [7]
   \<and> calls
     (loaderSettled mockedId 0 Rejected
        (timeoutCallback 1 (snd (subscribe [] 7 (testLoader False))))) = [(0, [[]])]
   \<and> itemStates
     (loaderSettled mockedId 0 Rejected
        (timeoutCallback 1 (snd (subscribe [] 7 (testLoader False))))) [] = Some NEW_ITEM_STATE
   \<and> notified
     (loaderSettled mockedId 0 Rejected
        (timeoutCallback 1 (snd (subscribe [] 7 (testLoader False))))) = []"
  by code_simp

subsection \<open>Subscribing\<close>

lemma scheduleLoad_timer:
  "currentTimeout (scheduleLoad s) = Some (nextTimer s)"
  "timers (scheduleLoad s) =
     (case currentTimeout s of
        None \<Rightarrow> timers s
      | Some h \<Rightarrow> filter (\<lambda>t. fst t \<noteq> h) (timers s))
     @ [(nextTimer s, debounce (optionsWithDefaultValues s))]"
  "nextTimer (scheduleLoad s) = Suc (nextTimer s)"
  by (simp_all add: scheduleLoad_def Let_def)

lemma addToQueue_timer:
  assumes "fst (addToQueue x s) = None"
  shows "currentTimeout (snd (addToQueue x s)) = Some (nextTimer s)"
    and "timers (snd (addToQueue x s)) =
     (case currentTimeout s of
        None \<Rightarrow> timers s
      | Some h \<Rightarrow> filter (\<lambda>t. fst t \<noteq> h) (timers s))
     @ [(nextTimer s, debounce (optionsWithDefaultValues s))]"
    and "nextTimer (snd (addToQueue x s)) = Suc (nextTimer s)"
  using assms
  by (simp_all add: addToQueue_snd addToQueue_fst scheduleLoad_timer split: option.split)




subsection \<open>The data field\<close>

text \<open>
  C9. Each reporting step leaves a stored state as it was or replaces it by the
  previous state with flags updated; the data field is the same after marking queued,
  loading or failed, and after \<open>reportFinished\<close> it is the same or the item that the
  identifier matched.
\<close>

theorem reporting_keeps_data:
  "(itemStates (snd (reportQueuing x s)) i = itemStates s i
      \<or> itemStates (snd (reportQueuing x s)) i
          = Some ((spread (itemStates s i))\<lparr>isQueued := Some True\<rparr>))
   \<and> data (spread (itemStates (snd (reportQueuing x s)) i)) = data (spread (itemStates s i))
   \<and> (itemStates (reportLoading ids s) i = itemStates s i
      \<or> itemStates (reportLoading ids s) i
          = Some ((spread (itemStates s i))
                    \<lparr>hasErrors := Some False, isQueued := Some False, isLoading := Some True\<rparr>))
   \<and> data (spread (itemStates (reportLoading ids s) i)) = data (spread (itemStates s i))
   \<and> (itemStates (reportFailed ids s) i = itemStates s i
      \<or> itemStates (reportFailed ids s) i
          = Some ((spread (itemStates s i))\<lparr>hasErrors := Some True, isLoading := Some False\<rparr>))
   \<and> data (spread (itemStates (reportFailed ids s) i)) = data (spread (itemStates s i))
   \<and> (itemStates (reportFinished getId ids items s) i = itemStates s i
      \<or> itemStates (reportFinished getId ids items s) i
          = Some ((spread (itemStates s i))\<lparr>hasErrors := Some True, isLoading := Some False\<rparr>)
      \<or> (\<exists>item. find (\<lambda>item. getId item = i) items = Some item
            \<and> itemStates (reportFinished getId ids items s) i
                = Some ((spread (itemStates s i))
                          \<lparr>hasErrors := Some False, isLoading := Some False, data := Item item\<rparr>)))
   \<and> (data (spread (itemStates (reportFinished getId ids items s) i))
         = data (spread (itemStates s i))
      \<or> (\<exists>item. find (\<lambda>item. getId item = i) items = Some item
            \<and> data (spread (itemStates (reportFinished getId ids items s) i)) = Item item))"
  by (simp add: reportQueuing_itemStates reportLoading_itemStates reportFailed_itemStates
      reportFinished_itemStates split: option.split)

subsection \<open>Reconciling a resolved load\<close>









lemma reportLoading_notified:
  "notified (reportLoading ids s) = notified s @ concat (map (notesOf loadingSel s) ids)"
  by (simp add: reportLoading_markFold markFold_notified)








subsection \<open>What an observer receives in a load cycle\<close>

lemma notesOf_states:
  assumes "subscriptions s' = subscriptions s" and "itemStates s' = itemStates s"
  shows "notesOf sel s' = notesOf sel s"
proof
  fix x
  show "notesOf sel s' x = notesOf sel s x"
    using assms by (simp add: notesOf_def split: option.split)
qed





lemma timeoutCallback_fires:
  assumes "h \<in> fst ` set (timers s)"
  shows "notified (timeoutCallback h s)
           = notified s @ concat (map (notesOf loadingSel s) (currentQueue s))"
    and "subscriptions (timeoutCallback h s) = subscriptions s"
    and "itemStates (timeoutCallback h s) i =
       (if Some i \<in> set (currentQueue s) \<and> i \<noteq> [] \<and> subscriptions s i \<noteq> None
        then Some ((spread (itemStates s i))
                   \<lparr>hasErrors := Some False, isQueued := Some False, isLoading := Some True\<rparr>)
        else itemStates s i)"
    and "inflight (timeoutCallback h s) = inflight s @ [(length (calls s), currentQueue s)]"
    and "calls (timeoutCallback h s)
           = calls s @ [(currentLoader s, map the (filter isDefined (currentQueue s)))]"
    and "currentQueue (timeoutCallback h s) = []"
    and "timers (timeoutCallback h s) = filter (\<lambda>t. fst t \<noteq> h) (timers s)"
proof -
  let ?s0 = "s\<lparr>timers := filter (\<lambda>t. fst t \<noteq> h) (timers s), currentQueue := []\<rparr>"
  have n: "notesOf loadingSel ?s0 = notesOf loadingSel s"
    by (rule notesOf_states) simp_all
  from assms show "notified (timeoutCallback h s)
           = notified s @ concat (map (notesOf loadingSel s) (currentQueue s))"
    by (simp add: timeoutCallback_def Let_def reportLoading_notified n)
  from assms show "subscriptions (timeoutCallback h s) = subscriptions s"
    by (simp add: timeoutCallback_def Let_def)
  from assms show "itemStates (timeoutCallback h s) i =
       (if Some i \<in> set (currentQueue s) \<and> i \<noteq> [] \<and> subscriptions s i \<noteq> None
        then Some ((spread (itemStates s i))
                   \<lparr>hasErrors := Some False, isQueued := Some False, isLoading := Some True\<rparr>)
        else itemStates s i)"
    by (auto simp: timeoutCallback_def Let_def reportLoading_itemStates)
  from assms show "inflight (timeoutCallback h s) = inflight s @ [(length (calls s), currentQueue s)]"
    by (simp add: timeoutCallback_def Let_def)
  from assms show "calls (timeoutCallback h s)
           = calls s @ [(currentLoader s, map the (filter isDefined (currentQueue s)))]"
    by (simp add: timeoutCallback_def Let_def)
  from assms show "currentQueue (timeoutCallback h s) = []"
    by (simp add: timeoutCallback_def Let_def)
  from assms show "timers (timeoutCallback h s) = filter (\<lambda>t. fst t \<noteq> h) (timers s)"
    by (simp add: timeoutCallback_def Let_def)
qed






lemma reportQueuing_notified:
  "notified (snd (reportQueuing x s)) =
     notified s @ notesOf (\<lambda>i. Some (\<lambda>st. st\<lparr>isQueued := Some True\<rparr>)) s x"
  by (cases x) (simp_all add: reportQueuing.simps notesOf_def Let_def split: option.split)

lemma addToQueue_notified:
  "notified (snd (addToQueue x s)) =
     notified s @ notesOf (\<lambda>i. Some (\<lambda>st. st\<lparr>isQueued := Some True\<rparr>)) s x"
proof -
  have "notesOf sel (s\<lparr>currentQueue := currentQueue s @ [x]\<rparr>) = notesOf sel s"
    for sel :: "string \<Rightarrow> ('a ItemState \<Rightarrow> 'a ItemState) option"
    by (rule notesOf_states) simp_all
  then show ?thesis
    by (simp add: addToQueue_snd reportQueuing_notified)
qed





text \<open>
  The cycles above suppose that the index of the next call is not taken by a load in
  flight. That holds in every state a run reaches from a new engine.
\<close>

lemma addAllToQueue_calls:
  "calls (snd (addAllToQueue ids s)) = calls s \<and> inflight (snd (addAllToQueue ids s)) = inflight s"
proof (induction ids arbitrary: s)
  case Nil
  show ?case by simp
next
  case (Cons x ids)
  show ?case
    by (simp add: addAllToQueue_Cons Cons.IH del: addAllToQueue.simps)
qed

lemma refreshAll_calls:
  "calls (snd (refreshAll keys s)) = calls s \<and> inflight (snd (refreshAll keys s)) = inflight s"
  by (simp add: refreshAll_unfold addAllToQueue_calls)

lemma subscribe_calls:
  "calls (snd (subscribe i callback s)) = calls s
   \<and> inflight (snd (subscribe i callback s)) = inflight s"
  by (cases "subscriptions s i") (simp_all add: subscribe_new subscribe_existing)

lemma unsubscribe_calls:
  "calls (snd (unsubscribe i callback s)) = calls s
   \<and> inflight (snd (unsubscribe i callback s)) = inflight s"
  by (simp add: unsubscribe_def Let_def split: option.split)

lemma timeoutCallback_indexed:
  assumes "indexed s"
  shows "indexed (timeoutCallback h s)"
proof (cases "h \<in> fst ` set (timers s)")
  case True
  from timeoutCallback_fires(4,5) [OF True] assms show ?thesis
    by (auto simp: indexed_def)
next
  case False
  with assms show ?thesis by (simp add: timeoutCallback_def)
qed

lemma loaderSettled_indexed:
  assumes "indexed s"
  shows "indexed (loaderSettled getId k result s)"
  using assms
  by (auto simp: indexed_def loaderSettled_def Let_def split: option.split loaded.split)

lemma step_indexed:
  assumes "indexed s"
  shows "indexed (snd (step getId e s))"
proof (cases e)
  case (TimerFires h)
  with assms show ?thesis by (simp add: timeoutCallback_indexed)
next
  case (LoaderSettles k result)
  with assms show ?thesis by (simp add: loaderSettled_indexed)
qed (use assms in \<open>simp_all add: indexed_def setLoader_def setDebounce_def refresh_def
      refreshAll_calls subscribe_calls unsubscribe_calls\<close>)

lemma run_indexed:
  assumes "run getId es s = Some s'" and "indexed s"
  shows "indexed s'"
  using assms
proof (induction es arbitrary: s)
  case Nil
  then show ?case by simp
next
  case (Cons e es)
  from Cons.prems(1) have "run getId es (snd (step getId e s)) = Some s'"
    by (simp split: if_splits)
  moreover from Cons.prems(2) have "indexed (snd (step getId e s))"
    by (rule step_indexed)
  ultimately show ?case by (rule Cons.IH)
qed

lemma createBatchLoader_indexed: "indexed (createBatchLoader loader options)"
  by (simp add: createBatchLoader_def Let_def indexed_def)

lemma reachable_fresh_index:
  assumes "run getId es (createBatchLoader loader options) = Some s"
  shows "length (calls s) \<notin> fst ` set (inflight s)"
proof -
  from assms createBatchLoader_indexed have "indexed s" by (rule run_indexed)
  then show ?thesis by (auto simp: indexed_def)
qed





subsection \<open>Bursts of enqueues\<close>

text \<open>
  For calls that return normally the batching holds: after a non-empty burst, begun
  when no timer but the current one is pending, exactly one timer is pending, and when
  it fires the loader is called once, with the defined identifiers of the queue in
  the order they were enqueued, duplicates kept.
\<close>

lemma addToQueue_rearms:
  assumes "fst (addToQueue x s) = None" and "onlyCurrentTimer s"
  shows "timers (snd (addToQueue x s)) = [(nextTimer s, debounce (optionsWithDefaultValues s))]"
    and "currentTimeout (snd (addToQueue x s)) = Some (nextTimer s)"
proof -
  from assms(2) have "(case currentTimeout s of
        None \<Rightarrow> timers s
      | Some h \<Rightarrow> filter (\<lambda>t. fst t \<noteq> h) (timers s)) = []"
    by (cases "timers s") (auto simp: onlyCurrentTimer_def filter_empty_conv split: option.split)
  with addToQueue_timer(2) [OF assms(1)]
  show "timers (snd (addToQueue x s)) = [(nextTimer s, debounce (optionsWithDefaultValues s))]"
    by simp
  from addToQueue_timer(1) [OF assms(1)]
  show "currentTimeout (snd (addToQueue x s)) = Some (nextTimer s)" .
qed

lemma enqueue_step:
  assumes "enqueuedBy e s \<noteq> []" and "fst (step getId e s) = None" and "onlyCurrentTimer s"
  shows "currentQueue (snd (step getId e s)) = currentQueue s @ enqueuedBy e s"
    and "\<exists>h d. timers (snd (step getId e s)) = [(h, d)]
           \<and> currentTimeout (snd (step getId e s)) = Some h"
    and "calls (snd (step getId e s)) = calls s"
    and "currentLoader (snd (step getId e s)) = currentLoader s"
proof -
  consider i where "e = Refresh i"
    | i callback where "e = Subscribe i callback" and "subscriptions s i = None"
    using assms(1) by (cases e) (auto split: if_splits)
  then have "currentQueue (snd (step getId e s)) = currentQueue s @ enqueuedBy e s
    \<and> (\<exists>h d. timers (snd (step getId e s)) = [(h, d)]
           \<and> currentTimeout (snd (step getId e s)) = Some h)
    \<and> calls (snd (step getId e s)) = calls s
    \<and> currentLoader (snd (step getId e s)) = currentLoader s"
  proof cases
    case 1
    with assms(2) have ok: "fst (addToQueue (Some i) s) = None"
      by (simp add: refresh_def)
    from 1 show ?thesis
      using addToQueue_rearms [OF ok assms(3)] by (simp add: refresh_def)
  next
    case 2
    let ?s0 = "s\<lparr>subscriptions := (subscriptions s)(i \<mapsto> []),
                  itemStates := (itemStates s)(i \<mapsto> NEW_ITEM_STATE)\<rparr>"
    have ok: "fst (addToQueue (Some i) ?s0) = None"
      by (simp add: addToQueue_fst reportQueuing_fst)
    from assms(3) have "onlyCurrentTimer ?s0"
      by (simp add: onlyCurrentTimer_def)
    from addToQueue_rearms [OF ok this] 2 show ?thesis
      by (simp add: subscribe_new)
  qed
  then show "currentQueue (snd (step getId e s)) = currentQueue s @ enqueuedBy e s"
    and "\<exists>h d. timers (snd (step getId e s)) = [(h, d)]
           \<and> currentTimeout (snd (step getId e s)) = Some h"
    and "calls (snd (step getId e s)) = calls s"
    and "currentLoader (snd (step getId e s)) = currentLoader s"
    by simp_all
qed

lemma burst_timers:
  assumes "burst getId es s = Some (ids, s')" and "onlyCurrentTimer s"
  shows "currentQueue s' = currentQueue s @ ids \<and> calls s' = calls s
    \<and> currentLoader s' = currentLoader s
    \<and> (if es = [] then s' = s
        else \<exists>h d. timers s' = [(h, d)] \<and> currentTimeout s' = Some h)"
  using assms
proof (induction es arbitrary: s ids)
  case Nil
  then show ?case by simp
next
  case (Cons e es)
  let ?s1 = "snd (step getId e s)"
  from Cons.prems(1) have en: "enqueuedBy e s \<noteq> []" and ok: "fst (step getId e s) = None"
    by (simp_all split: if_splits)
  with Cons.prems(1) obtain ids' where rest: "burst getId es ?s1 = Some (ids', s')"
    and ids: "ids = enqueuedBy e s @ ids'"
    by (auto split: option.splits)
  note st = enqueue_step [OF en ok Cons.prems(2)]
  from st(2) have one: "onlyCurrentTimer ?s1"
    by (auto simp: onlyCurrentTimer_def)
  from Cons.IH [OF rest one] st ids show ?case
    by (cases "es = []") auto
qed

lemma burst_one_call:
  assumes "burst getId es s = Some (ids, s')" and "es \<noteq> []" and "onlyCurrentTimer s"
  shows "\<exists>h d. timers s' = [(h, d)]
    \<and> timers (timeoutCallback h s') = []
    \<and> currentQueue (timeoutCallback h s') = []
    \<and> calls (timeoutCallback h s')
        = calls s @ [(currentLoader s, map the (filter isDefined (currentQueue s @ ids)))]"
proof -
  from burst_timers [OF assms(1,3)] assms(2)
  obtain h d where t: "timers s' = [(h, d)]"
    and q: "currentQueue s' = currentQueue s @ ids"
    and c: "calls s' = calls s" and l: "currentLoader s' = currentLoader s"
    by auto
  from t have "h \<in> fst ` set (timers s')" by simp
  note fires = timeoutCallback_fires [OF this]
  from t q c l show ?thesis
    by (simp add: fires)
qed

text \<open>
  The premise on the pending timers is needed. A settling load sets
  \<open>currentTimeout\<close> to null even when that handle belongs to a timer armed during the
  load; the next enqueue then cancels nothing, and two timers are pending. Below,
  "1" is refreshed while the first load is in flight and again after it resolved: the
  loader is called with both, and once more with nothing.
\<close>

lemma settle_forgets_pending_timer:
  "timers (snd (refresh ''1'' (loaderSettled mockedId 0 (Resolved [MOCKED_ITEM])
       (snd (refresh ''1'' (timeoutCallback 1 (snd (subscribe ''1'' 7 (testLoader False)))))))))
     = [(2, 100), (3, 100)]
   \<and> calls (timeoutCallback 3 (timeoutCallback 2
       (snd (refresh ''1'' (loaderSettled mockedId 0 (Resolved [MOCKED_ITEM])
         (snd (refresh ''1'' (timeoutCallback 1 (snd (subscribe ''1'' 7 (testLoader False)))))))))))
     = [(0, [''1'']), (0, [''1'', ''1'']), (0, [])]"
  by code_simp

text \<open>
  C3. The claim is that every burst of enqueues ends in exactly one call of the bulk
  loader holding the enqueued identifiers. On a fresh engine the enqueue of
  \<open>refresh "1"\<close> leaves "1" on the queue, but the exception of \<open>reportQueuing\<close>
  comes before \<open>scheduleLoad\<close>: no timer is pending, nothing is in flight and the
  loader has not been called, so no call of the loader results.
\<close>

theorem refresh_unregistered_arms_no_timer:
  "fst (refresh ''1'' (testLoader False)) = Some TypeError
   \<and> currentQueue (snd (refresh ''1'' (testLoader False))) = [Some ''1'']
   \<and> currentTimeout (snd (refresh ''1'' (testLoader False))) = None
   \<and> timers (snd (refresh ''1'' (testLoader False))) = []
   \<and> inflight (snd (refresh ''1'' (testLoader False))) = []
   \<and> calls (snd (refresh ''1'' (testLoader False))) = []"
  by code_simp

subsection \<open>How far the missing guard and the truthiness test reach\<close>

text \<open>
  \<open>refresh\<close> throws for every non-empty identifier without a registry entry, after
  the push and the write and before the timer is armed.
\<close>

lemma refresh_without_entry:
  assumes "i \<noteq> []" and "subscriptions s i = None"
  shows "fst (refresh i s) = Some TypeError"
    and "itemStates (snd (refresh i s)) i = Some ((spread (itemStates s i))\<lparr>isQueued := Some True\<rparr>)"
    and "currentQueue (snd (refresh i s)) = currentQueue s @ [Some i]"
    and "timers (snd (refresh i s)) = timers s"
    and "currentTimeout (snd (refresh i s)) = currentTimeout s"
    and "notified (snd (refresh i s)) = notified s"
proof -
  from assms show f: "fst (refresh i s) = Some TypeError"
    by (simp add: refresh_def addToQueue_fst reportQueuing_fst)
  from assms show "itemStates (snd (refresh i s)) i
      = Some ((spread (itemStates s i))\<lparr>isQueued := Some True\<rparr>)"
    by (simp add: refresh_def addToQueue_itemStates)
  show "currentQueue (snd (refresh i s)) = currentQueue s @ [Some i]"
    by (simp add: refresh_def)
  from f show "timers (snd (refresh i s)) = timers s"
    by (simp add: refresh_def addToQueue_snd addToQueue_fst)
  from f show "currentTimeout (snd (refresh i s)) = currentTimeout s"
    by (simp add: refresh_def addToQueue_snd addToQueue_fst)
  from assms show "notified (snd (refresh i s)) = notified s"
    by (simp add: refresh_def addToQueue_notified notesOf_def)
qed


text \<open>
  The empty string is the one identifier that \<open>refresh\<close> accepts without an entry:
  it is enqueued, and no reporting step ever touches it.
\<close>

lemma refresh_empty_string:
  "fst (refresh [] s) = None"
  "itemStates (snd (refresh [] s)) = itemStates s"
  "notified (snd (refresh [] s)) = notified s"
  "currentQueue (snd (refresh [] s)) = currentQueue s @ [Some []]"
  by (simp_all add: refresh_def addToQueue_fst reportQueuing_fst addToQueue_notified notesOf_def
      addToQueue_itemStates fun_eq_iff)


text \<open>
  A rejected load marks every non-empty identifier of its snapshot that has a registry
  entry as failed, calls the loader no second time and arms no timer.
\<close>

lemma rejected_load:
  assumes "map_of (inflight s) k = Some ids"
  shows "itemStates (loaderSettled getId k Rejected s) i =
       (if Some i \<in> set ids \<and> i \<noteq> [] \<and> subscriptions s i \<noteq> None
        then Some ((spread (itemStates s i))\<lparr>hasErrors := Some True, isLoading := Some False\<rparr>)
        else itemStates s i)"
    and "calls (loaderSettled getId k Rejected s) = calls s"
    and "timers (loaderSettled getId k Rejected s) = timers s"
    and "currentQueue (loaderSettled getId k Rejected s) = currentQueue s"
  using assms by (auto simp: loaderSettled_def Let_def reportFailed_itemStates)

end
